theory Spec2Isabelle
  imports Complex_Main "HOL-Library.AList"
begin

section \<open>HTMLTextPipe: the per-renderable GPU text cache\<close>

text \<open>
  A shallow embedding of \<^verbatim>\<open>src/rendering/text/html/HTMLTextPipe.ts\<close>.

  The pipe keeps one mutable record object per renderable uid in \<^verbatim>\<open>_gpuText\<close>. The
  asynchronous method \<^verbatim>\<open>_updateGpuText\<close> captures the record object and the renderable
  by reference and resumes after its \<^verbatim>\<open>await\<close> on a later turn, so record objects and
  BatchableSprite objects live in explicit stores addressed by references: a record
  that has left \<^verbatim>\<open>_gpuText\<close> is still reachable from a suspended continuation, and a
  BatchableSprite that went back to the pool is still reachable from its record.

  Calls to the collaborators (text texture provider, batcher, console) are recorded in
  logs. A method that throws is modelled by an outcome next to the state it leaves.
\<close>

subsection \<open>Data\<close>

type_synonym uid = nat
type_synonym gref = nat
type_synonym sref = nat

datatype texture = EMPTY | Managed nat

type_synonym quad = "real list"

datatype error = TypeError | Rejection nat

datatype outcome = Returned | Thrown error

text \<open>
  The part of \<^verbatim>\<open>renderable.view\<close> the pipe reads and writes. \<open>key\<close> is the value
  \<^verbatim>\<open>view._getKey()\<close> returns (the method is not part of this file, its result is an input),
  \<open>padding\<close> is \<^verbatim>\<open>view._style.padding\<close>, \<open>didUpdate\<close> is \<^verbatim>\<open>view._didUpdate\<close> and
  \<open>styleUpdates\<close> counts the calls of \<^verbatim>\<open>view._style.update()\<close>. A \<open>resolution\<close> of
  \<open>None\<close> is \<^verbatim>\<open>null\<close> or \<^verbatim>\<open>undefined\<close>.
\<close>

record text_view =
  view_text :: string
  resolution :: "real option"
  anchor :: "real \<times> real"
  padding :: real
  key :: string
  didUpdate :: bool
  styleUpdates :: nat

text \<open>The element type of \<^verbatim>\<open>_gpuText\<close>; \<open>batchableSprite\<close> is a reference.\<close>

record gpu_text =
  textureNeedsUploading :: bool
  generatingTexture :: bool
  texture :: texture
  currentKey :: string
  batchableSprite :: sref

text \<open>
  The fields of a BatchableSprite the pipe assigns. Each of them is \<^verbatim>\<open>null\<close> (\<open>None\<close>)
  while the object lies in the pool.
\<close>

record batchable_sprite =
  sprite :: "uid option"
  bs_texture :: "texture option"
  bounds :: "quad option"

text \<open>
  What the text texture provider sees and does: the two calls the pipe makes, and the
  settling of a promise that \<^verbatim>\<open>getManagedTexture\<close> returned.
\<close>

datatype provider_event =
    DecreaseReferenceCount string
  | GetManagedTexture string real string
  | Resolved string texture
  | Rejected string error

datatype batch_call = AddToBatch sref | UpdateElement sref

text \<open>
  A suspended run of \<^verbatim>\<open>_updateGpuText\<close>, waiting at its \<^verbatim>\<open>await\<close>: the renderable and
  the record object it captured, and the key it asked for.
\<close>

record request =
  p_renderable :: uid
  p_gpuText :: gref
  p_key :: string

text \<open>
  \<open>gpuText\<close> is the object \<^verbatim>\<open>_gpuText\<close>: its own keys, each holding a record reference
  or \<^verbatim>\<open>null\<close>. \<open>released\<close> holds once \<^verbatim>\<open>destroy()\<close> has set \<^verbatim>\<open>_gpuText\<close> and
  \<^verbatim>\<open>_renderer\<close> to \<^verbatim>\<open>null\<close>. \<open>listeners\<close> counts the \<^verbatim>\<open>'destroyed'\<close> handlers the pipe
  has registered on each renderable.
\<close>

record state =
  gpuText :: "(uid \<times> gref option) list"
  released :: bool
  gheap :: "gref \<Rightarrow> gpu_text"
  next_gref :: gref
  sheap :: "sref \<Rightarrow> batchable_sprite"
  next_sref :: sref
  pool :: "sref list"
  views :: "uid \<Rightarrow> text_view"
  listeners :: "uid \<Rightarrow> nat"
  renderer_resolution :: real
  provider :: "provider_event list"
  pending :: "request list"
  batch :: "batch_call list"
  console :: "error list"

subsection \<open>The object pool\<close>

text \<open>
  Modelled from the spec: the generic object pool \<^verbatim>\<open>BigPool\<close> (\<^verbatim>\<open>utils/pool/PoolGroup\<close>)
  is not part of this file; the spec gives it as \<^verbatim>\<open>acquire(type) \<rightarrow> instance\<close> and
  \<^verbatim>\<open>release(instance)\<close>. Acquiring hands out a released instance when there is one and
  a new object otherwise.
\<close>

definition pool_get :: "state \<Rightarrow> sref \<times> state" where
  "pool_get s =
     (case pool s of
        [] \<Rightarrow> (next_sref s, s\<lparr>next_sref := Suc (next_sref s)\<rparr>)
      | a # rest \<Rightarrow> (a, s\<lparr>pool := rest\<rparr>))"

text \<open>
  Modelled from the spec: releasing an instance clears it before it is kept for reuse.
  The spec has a late completion "write into a structure that may have been cleared";
  for a BatchableSprite the pool's release resets \<^verbatim>\<open>sprite\<close>, \<^verbatim>\<open>texture\<close> and \<^verbatim>\<open>bounds\<close> to
  \<^verbatim>\<open>null\<close>.
\<close>

definition pool_return :: "sref \<Rightarrow> state \<Rightarrow> state" where
  "pool_return a s =
     s\<lparr>sheap := (sheap s)(a := \<lparr>sprite = None, bs_texture = None, bounds = None\<rparr>),
       pool := a # pool s\<rparr>"

subsection \<open>Methods of a pipe whose fields are set\<close>

text \<open>
  The definitions of this subsection are the methods on a pipe that \<^verbatim>\<open>destroy()\<close> has
  not yet run on; \<open>call\<close> below adds the case of \<^verbatim>\<open>_gpuText = null\<close>, which every
  public method meets in its first statement.
\<close>

definition sentinel :: string where
  "sentinel = ''--''"

definition initGpuText :: "uid \<Rightarrow> state \<Rightarrow> gref \<times> state" where
  "initGpuText u s =
     (let s1 = s\<lparr>views := (views s)(u := (views s u)\<lparr>styleUpdates := Suc (styleUpdates (views s u))\<rparr>)\<rparr>;
          (a, s2) = pool_get s1;
          g = next_gref s2;
          s3 = s2\<lparr>gheap := (gheap s2)(g :=
                    \<lparr>textureNeedsUploading = False, generatingTexture = False,
                     texture = EMPTY, currentKey = sentinel, batchableSprite = a\<rparr>),
                  next_gref := Suc g\<rparr>;
          s4 = s3\<lparr>sheap := (sheap s3)(a :=
                    \<lparr>sprite = Some u, bs_texture = Some EMPTY, bounds = Some [0, 1, 0, 0]\<rparr>)\<rparr>;
          s5 = s4\<lparr>gpuText := AList.update u (Some g) (gpuText s4)\<rparr>;
          s6 = s5\<lparr>listeners := (listeners s5)(u := Suc (listeners s5 u))\<rparr>
      in (g, s6))"

definition getGpuText :: "uid \<Rightarrow> state \<Rightarrow> gref \<times> state" where
  "getGpuText u s =
     (case map_of (gpuText s) u of
        Some (Some g) \<Rightarrow> (g, s)
      | _ \<Rightarrow> initGpuText u s)"

definition validateRenderable :: "uid \<Rightarrow> state \<Rightarrow> bool \<times> state" where
  "validateRenderable u s =
     (let (g, s1) = getGpuText u s;
          newKey = key (views s1 u)
      in if textureNeedsUploading (gheap s1 g)
         then (True, s1\<lparr>gheap := (gheap s1)(g := (gheap s1 g)\<lparr>textureNeedsUploading := False\<rparr>)\<rparr>)
         else if currentKey (gheap s1 g) \<noteq> newKey then (True, s1)
         else (False, s1))"

text \<open>
  \<^verbatim>\<open>_updateGpuText\<close> up to its \<^verbatim>\<open>await\<close>: the part that runs inside the caller's turn.
  When it gets as far as \<^verbatim>\<open>getManagedTexture\<close> it leaves a suspended request behind.
\<close>

definition updateGpuText :: "uid \<Rightarrow> state \<Rightarrow> state" where
  "updateGpuText u s =
     (let s1 = s\<lparr>views := (views s)(u := (views s u)\<lparr>didUpdate := False\<rparr>)\<rparr>;
          (g, s2) = getGpuText u s1
      in if generatingTexture (gheap s2 g) then s2
         else
           let newKey = key (views s2 u);
               s3 = s2\<lparr>provider := provider s2 @ [DecreaseReferenceCount (currentKey (gheap s2 g))]\<rparr>;
               s4 = s3\<lparr>gheap := (gheap s3)(g := (gheap s3 g)\<lparr>generatingTexture := True\<rparr>)\<rparr>;
               s5 = s4\<lparr>gheap := (gheap s4)(g := (gheap s4 g)\<lparr>currentKey := newKey\<rparr>)\<rparr>;
               v = views s5 u;
               res = (case resolution v of Some r \<Rightarrow> r | None \<Rightarrow> renderer_resolution s5)
           in s5\<lparr>provider := provider s5 @ [GetManagedTexture (view_text v) res (key v)],
                 pending := pending s5 @ [\<lparr>p_renderable = u, p_gpuText = g, p_key = key v\<rparr>]\<rparr>)"

text \<open>
  Modelled from the spec: \<^verbatim>\<open>view.onUpdate()\<close> belongs to the view class, which is not part
  of this file; by the spec it "notifies the renderable's view that it has changed (so
  the next validation pass picks it up)", which raises the view's mutation flag.
\<close>

definition onUpdate :: "text_view \<Rightarrow> text_view" where
  "onUpdate v = v\<lparr>didUpdate := True\<rparr>"

text \<open>
  \<^verbatim>\<open>updateQuadBounds\<close> (\<^verbatim>\<open>utils/updateQuadBounds\<close>) is not part of this file. The values it
  computes are the parameter \<open>uqb\<close> of the model: from the old bounds, the anchor, the
  texture and the padding to the new bounds. Modelled from the spec: it is "a pure
  utility" that computes the bounds "from a texture and padding/anchor" and stores them
  in the bounds object it is handed; handed \<^verbatim>\<open>null\<close> for the bounds or for the texture,
  the property access throws a TypeError, and nothing has been written.
\<close>

definition updateQuadBounds ::
  "(quad \<Rightarrow> real \<times> real \<Rightarrow> texture \<Rightarrow> real \<Rightarrow> quad) \<Rightarrow>
     quad option \<Rightarrow> real \<times> real \<Rightarrow> texture option \<Rightarrow> real \<Rightarrow> error + quad" where
  "updateQuadBounds uqb b a t pad =
     (case b of
        None \<Rightarrow> Inl TypeError
      | Some b' \<Rightarrow>
          (case t of
             None \<Rightarrow> Inl TypeError
           | Some t' \<Rightarrow> Inr (uqb b' a t' pad)))"

text \<open>
  The promise of \<^verbatim>\<open>_updateGpuText\<close> rejected, because the promise it awaited was rejected
  or because a statement after the \<^verbatim>\<open>await\<close> threw: the handler given to \<^verbatim>\<open>.catch\<close> in
  \<^verbatim>\<open>_updateText\<close> writes the error to the console.
\<close>

definition updateGpuText_rejected :: "request \<Rightarrow> error \<Rightarrow> state \<Rightarrow> state" where
  "updateGpuText_rejected p e s = s\<lparr>console := console s @ [e]\<rparr>"

text \<open>
  \<^verbatim>\<open>_updateGpuText\<close> after its \<^verbatim>\<open>await\<close>, resumed with the texture the promise resolved
  to. It works on the record object and the renderable it captured before the \<^verbatim>\<open>await\<close>.
  When \<^verbatim>\<open>updateQuadBounds\<close>, its last statement, throws, the promise of \<^verbatim>\<open>_updateGpuText\<close>
  is rejected with the writes before it done.
\<close>

definition updateGpuText_resumed ::
  "(quad \<Rightarrow> real \<times> real \<Rightarrow> texture \<Rightarrow> real \<Rightarrow> quad) \<Rightarrow> request \<Rightarrow> texture \<Rightarrow> state \<Rightarrow> state" where
  "updateGpuText_resumed uqb p t s =
     (let g = p_gpuText p;
          u = p_renderable p;
          a = batchableSprite (gheap s g);
          s1 = s\<lparr>gheap := (gheap s)(g := (gheap s g)\<lparr>texture := t\<rparr>)\<rparr>;
          s2 = s1\<lparr>sheap := (sheap s1)(a := (sheap s1 a)\<lparr>bs_texture := Some t\<rparr>)\<rparr>;
          s3 = s2\<lparr>gheap := (gheap s2)(g := (gheap s2 g)\<lparr>generatingTexture := False\<rparr>)\<rparr>;
          s4 = s3\<lparr>gheap := (gheap s3)(g := (gheap s3 g)\<lparr>textureNeedsUploading := True\<rparr>)\<rparr>;
          s5 = s4\<lparr>views := (views s4)(u := onUpdate (views s4 u))\<rparr>;
          pad = padding (views s5 u)
      in case updateQuadBounds uqb (bounds (sheap s5 a)) (anchor (views s5 u))
                (bs_texture (sheap s5 a)) pad of
           Inl e \<Rightarrow> updateGpuText_rejected p e s5
         | Inr q \<Rightarrow> s5\<lparr>sheap := (sheap s5)(a := (sheap s5 a)\<lparr>bounds := Some q\<rparr>)\<rparr>)"

text \<open>
  \<^verbatim>\<open>_updateText\<close> runs inside the caller's turn: when \<^verbatim>\<open>updateQuadBounds\<close>, its last
  statement, throws, the caller gets the exception.
\<close>

definition updateText ::
  "(quad \<Rightarrow> real \<times> real \<Rightarrow> texture \<Rightarrow> real \<Rightarrow> quad) \<Rightarrow> uid \<Rightarrow> state \<Rightarrow> outcome \<times> state" where
  "updateText uqb u s =
     (let newKey = key (views s u);
          (g, s1) = getGpuText u s;
          a = batchableSprite (gheap s1 g);
          s2 = (if currentKey (gheap s1 g) \<noteq> newKey then updateGpuText u s1 else s1);
          s3 = s2\<lparr>views := (views s2)(u := (views s2 u)\<lparr>didUpdate := False\<rparr>)\<rparr>;
          pad = padding (views s3 u)
      in case updateQuadBounds uqb (bounds (sheap s3 a)) (anchor (views s3 u))
                (bs_texture (sheap s3 a)) pad of
           Inl e \<Rightarrow> (Thrown e, s3)
         | Inr q \<Rightarrow> (Returned, s3\<lparr>sheap := (sheap s3)(a := (sheap s3 a)\<lparr>bounds := Some q\<rparr>)\<rparr>))"

definition addRenderable ::
  "(quad \<Rightarrow> real \<times> real \<Rightarrow> texture \<Rightarrow> real \<Rightarrow> quad) \<Rightarrow> uid \<Rightarrow> state \<Rightarrow> outcome \<times> state" where
  "addRenderable uqb u s =
     (let (g, s1) = getGpuText u s;
          a = batchableSprite (gheap s1 g);
          (r, s2) = (if didUpdate (views s1 u) then updateText uqb u s1 else (Returned, s1))
      in case r of
           Thrown e \<Rightarrow> (Thrown e, s2)
         | Returned \<Rightarrow> (Returned, s2\<lparr>batch := batch s2 @ [AddToBatch a]\<rparr>))"

text \<open>
  \<^verbatim>\<open>batchableSprite.batcher\<close> belongs to the batcher, which assigns it when the entry is
  added to a batch; the pipe never writes it. The model records the call, which is the
  last statement of the method: everything the method does to the pipe's own state has
  happened by then.
\<close>

definition updateRenderable ::
  "(quad \<Rightarrow> real \<times> real \<Rightarrow> texture \<Rightarrow> real \<Rightarrow> quad) \<Rightarrow> uid \<Rightarrow> state \<Rightarrow> outcome \<times> state" where
  "updateRenderable uqb u s =
     (let (g, s1) = getGpuText u s;
          a = batchableSprite (gheap s1 g);
          (r, s2) = (if didUpdate (views s1 u) then updateText uqb u s1 else (Returned, s1))
      in case r of
           Thrown e \<Rightarrow> (Thrown e, s2)
         | Returned \<Rightarrow> (Returned, s2\<lparr>batch := batch s2 @ [UpdateElement a]\<rparr>))"

text \<open>
  \<^verbatim>\<open>_destroyRenderableById\<close> reads \<^verbatim>\<open>gpuText.currentKey\<close> with no test of \<^verbatim>\<open>gpuText\<close>: on a
  key that holds \<^verbatim>\<open>null\<close>, or on a missing key, the read throws a TypeError before
  anything else has happened.
\<close>

definition destroyRenderableById :: "uid \<Rightarrow> state \<Rightarrow> outcome \<times> state" where
  "destroyRenderableById u s =
     (case map_of (gpuText s) u of
        Some (Some g) \<Rightarrow>
          (let s1 = s\<lparr>provider := provider s @ [DecreaseReferenceCount (currentKey (gheap s g))]\<rparr>;
               s2 = pool_return (batchableSprite (gheap s1 g)) s1
           in (Returned, s2\<lparr>gpuText := AList.update u None (gpuText s2)\<rparr>))
      | _ \<Rightarrow> (Thrown TypeError, s))"

definition destroyRenderable :: "uid \<Rightarrow> state \<Rightarrow> outcome \<times> state" where
  "destroyRenderable u s = destroyRenderableById u s"

text \<open>
  The loop of \<^verbatim>\<open>destroy()\<close>: \<^verbatim>\<open>for (const i in this._gpuText)\<close> visits the own keys of the
  object, whatever they hold, integer keys in ascending order (uids are counters, far
  below the 2^32 - 1 from which keys are visited in insertion order instead); a throw
  leaves the loop and the method.
\<close>

fun destroy_loop :: "uid list \<Rightarrow> state \<Rightarrow> outcome \<times> state" where
  "destroy_loop [] s = (Returned, s)"
| "destroy_loop (i # rest) s =
     (case destroyRenderableById i s of
        (Thrown e, s') \<Rightarrow> (Thrown e, s')
      | (Returned, s') \<Rightarrow> destroy_loop rest s')"

text \<open>
  When the loop has returned, \<^verbatim>\<open>destroy()\<close> sets \<^verbatim>\<open>_gpuText\<close> and \<^verbatim>\<open>_renderer\<close> to
  \<^verbatim>\<open>null\<close>: no key is left, and the pipe is \<open>released\<close>.
\<close>

definition destroy :: "state \<Rightarrow> outcome \<times> state" where
  "destroy s =
     (case destroy_loop (sort (map fst (gpuText s))) s of
        (Thrown e, s') \<Rightarrow> (Thrown e, s')
      | (Returned, s') \<Rightarrow> (Returned, s'\<lparr>gpuText := [], released := True\<rparr>))"

subsection \<open>The pipe in its environment\<close>

text \<open>
  What can happen to a pipe, one event per turn: the host calls a public method or
  changes a renderable's view, and the provider settles the promise of an outstanding
  request (counted from the oldest).
\<close>

datatype op =
    Validate uid
  | Add uid
  | Update uid
  | DestroyRenderable uid
  | Destroy
  | Fulfil nat texture
  | Reject nat error
  | SetView uid text_view

definition fulfil ::
  "(quad \<Rightarrow> real \<times> real \<Rightarrow> texture \<Rightarrow> real \<Rightarrow> quad) \<Rightarrow> nat \<Rightarrow> texture \<Rightarrow> state \<Rightarrow> state" where
  "fulfil uqb i t s =
     (if i < length (pending s)
      then let p = pending s ! i
           in updateGpuText_resumed uqb p t
                (s\<lparr>pending := take i (pending s) @ drop (Suc i) (pending s),
                   provider := provider s @ [Resolved (p_key p) t]\<rparr>)
      else s)"

definition reject :: "nat \<Rightarrow> error \<Rightarrow> state \<Rightarrow> state" where
  "reject i e s =
     (if i < length (pending s)
      then let p = pending s ! i
           in updateGpuText_rejected p e
                (s\<lparr>pending := take i (pending s) @ drop (Suc i) (pending s),
                   provider := provider s @ [Rejected (p_key p) e]\<rparr>)
      else s)"

text \<open>
  After \<^verbatim>\<open>destroy()\<close> the field \<^verbatim>\<open>_gpuText\<close> is \<^verbatim>\<open>null\<close>: \<^verbatim>\<open>validateRenderable\<close>,
  \<^verbatim>\<open>addRenderable\<close>, \<^verbatim>\<open>updateRenderable\<close> and \<^verbatim>\<open>destroyRenderable\<close> index it in their first
  statement and throw; a second \<^verbatim>\<open>destroy()\<close> loops over no key. A continuation reads
  neither field.
\<close>

definition call ::
  "(quad \<Rightarrow> real \<times> real \<Rightarrow> texture \<Rightarrow> real \<Rightarrow> quad) \<Rightarrow> op \<Rightarrow> state \<Rightarrow> outcome \<times> state" where
  "call uqb c s =
     (case c of
        Validate u \<Rightarrow> if released s then (Thrown TypeError, s) else (Returned, snd (validateRenderable u s))
      | Add u \<Rightarrow> if released s then (Thrown TypeError, s) else addRenderable uqb u s
      | Update u \<Rightarrow> if released s then (Thrown TypeError, s) else updateRenderable uqb u s
      | DestroyRenderable u \<Rightarrow> if released s then (Thrown TypeError, s) else destroyRenderable u s
      | Destroy \<Rightarrow> if released s then (Returned, s) else destroy s
      | Fulfil i t \<Rightarrow> (Returned, fulfil uqb i t s)
      | Reject i e \<Rightarrow> (Returned, reject i e s)
      | SetView u v \<Rightarrow> (Returned, s\<lparr>views := (views s)(u := v)\<rparr>))"

fun run ::
  "(quad \<Rightarrow> real \<times> real \<Rightarrow> texture \<Rightarrow> real \<Rightarrow> quad) \<Rightarrow> op list \<Rightarrow> state \<Rightarrow> state" where
  "run uqb [] s = s"
| "run uqb (c # cs) s = run uqb cs (snd (call uqb c s))"

text \<open>A pipe as its constructor leaves it, before any request went out.\<close>

definition constructed :: "state \<Rightarrow> bool" where
  "constructed s \<longleftrightarrow> gpuText s = [] \<and> \<not> released s \<and> provider s = [] \<and> pending s = []"

subsection \<open>Counting calls, holders and requests\<close>

text \<open>The record objects that \<^verbatim>\<open>_gpuText\<close> holds: the values of its keys that are not \<^verbatim>\<open>null\<close>.\<close>

fun live :: "(uid \<times> gref option) list \<Rightarrow> gref list" where
  "live [] = []"
| "live ((u, None) # m) = live m"
| "live ((u, Some g) # m) = g # live m"

fun is_request :: "string \<Rightarrow> provider_event \<Rightarrow> bool" where
  "is_request k (GetManagedTexture txt res k') = (k' = k)"
| "is_request k _ = False"

fun is_release :: "string \<Rightarrow> provider_event \<Rightarrow> bool" where
  "is_release k (DecreaseReferenceCount k') = (k' = k)"
| "is_release k _ = False"

fun is_success :: "string \<Rightarrow> provider_event \<Rightarrow> bool" where
  "is_success k (Resolved k' t) = (k' = k)"
| "is_success k _ = False"

text \<open>
  For a key: the \<^verbatim>\<open>getManagedTexture\<close> calls made, the \<^verbatim>\<open>decreaseReferenceCount\<close> calls
  made, the \<^verbatim>\<open>getManagedTexture\<close> calls that resolved, and the records in \<^verbatim>\<open>_gpuText\<close>
  whose \<^verbatim>\<open>currentKey\<close> it is. For a record object: the suspended requests that captured it.
\<close>

definition requests :: "string \<Rightarrow> state \<Rightarrow> nat" where
  "requests k s = length (filter (is_request k) (provider s))"

definition releases :: "string \<Rightarrow> state \<Rightarrow> nat" where
  "releases k s = length (filter (is_release k) (provider s))"

definition successes :: "string \<Rightarrow> state \<Rightarrow> nat" where
  "successes k s = length (filter (is_success k) (provider s))"

definition holders :: "string \<Rightarrow> state \<Rightarrow> nat" where
  "holders k s = length (filter (\<lambda>g. currentKey (gheap s g) = k) (live (gpuText s)))"

definition outstanding :: "gref \<Rightarrow> state \<Rightarrow> nat" where
  "outstanding g s = length (filter (\<lambda>p. p_gpuText p = g) (pending s))"

text \<open>
  The shape of a state that a run reaches: \<^verbatim>\<open>_gpuText\<close> has each key once and each record
  object under one key, and every reference in use was allocated.
\<close>

definition wf :: "state \<Rightarrow> bool" where
  "wf s \<longleftrightarrow>
     distinct (map fst (gpuText s)) \<and> distinct (live (gpuText s)) \<and>
     (\<forall>g \<in> set (live (gpuText s)). g < next_gref s) \<and>
     (\<forall>p \<in> set (pending s). p_gpuText p < next_gref s)"

definition balanced :: "state \<Rightarrow> bool" where
  "balanced s \<longleftrightarrow> (\<forall>k. k \<noteq> sentinel \<longrightarrow> requests k s = releases k s + holders k s)"

definition gated :: "state \<Rightarrow> bool" where
  "gated s \<longleftrightarrow> (\<forall>g. outstanding g s \<le> (if generatingTexture (gheap s g) then 1 else 0))"

definition inv :: "state \<Rightarrow> bool" where
  "inv s \<longleftrightarrow> wf s \<and> balanced s \<and> gated s"

subsection \<open>A sample pipe\<close>

text \<open>
  Concrete inputs for the examples: a bounds function that places a texture
  \<open>Managed n\<close> as a square of side \<open>n\<close>, two views that differ in text and key, and a
  pipe as its constructor leaves it, every renderable showing \<open>viewA\<close>.
\<close>

definition uqb0 :: "quad \<Rightarrow> real \<times> real \<Rightarrow> texture \<Rightarrow> real \<Rightarrow> quad" where
  "uqb0 b a t p =
     (case t of
        EMPTY \<Rightarrow> [- p, p, - p, p]
      | Managed n \<Rightarrow> [- p, real n + p, - p, real n + p])"

definition viewA :: text_view where
  "viewA = \<lparr>view_text = ''A'', resolution = None, anchor = (0, 0), padding = 0, key = ''A'',
             didUpdate = True, styleUpdates = 0\<rparr>"

definition viewB :: text_view where
  "viewB = \<lparr>view_text = ''B'', resolution = None, anchor = (0, 0), padding = 0, key = ''B'',
             didUpdate = True, styleUpdates = 0\<rparr>"

definition pipe0 :: state where
  "pipe0 =
     \<lparr>gpuText = [], released = False,
      gheap = (\<lambda>_. \<lparr>textureNeedsUploading = False, generatingTexture = False,
                     texture = EMPTY, currentKey = [], batchableSprite = 0\<rparr>),
      next_gref = 0,
      sheap = (\<lambda>_. \<lparr>sprite = None, bs_texture = None, bounds = None\<rparr>),
      next_sref = 0, pool = [], views = (\<lambda>_. viewA), listeners = (\<lambda>_. 0),
      renderer_resolution = 1, provider = [], pending = [], batch = [], console = []\<rparr>"

section \<open>Properties\<close>

subsection \<open>Looking a record up\<close>

lemma getGpuText_slot:
  "getGpuText u s = (g, s1) \<Longrightarrow> map_of (gpuText s1) u = Some (Some g)"
  by (auto simp: getGpuText_def initGpuText_def pool_get_def Let_def update_conv'
      split: option.splits list.splits if_splits)

lemma getGpuText_idem:
  "getGpuText u s = (g, s1) \<Longrightarrow> getGpuText u s1 = (g, s1)"
  using getGpuText_slot[of u s g s1] by (simp add: getGpuText_def)

lemma getGpuText_didUpdate:
  "getGpuText u s = (g, s1) \<Longrightarrow> didUpdate (views s1 w) = didUpdate (views s w)"
  by (auto simp: getGpuText_def initGpuText_def pool_get_def Let_def
      split: option.splits list.splits if_splits)

lemma getGpuText_view:
  "getGpuText u s = (g, s1) \<Longrightarrow> padding (views s1 w) = padding (views s w)"
  "getGpuText u s = (g, s1) \<Longrightarrow> anchor (views s1 w) = anchor (views s w)"
  "getGpuText u s = (g, s1) \<Longrightarrow> key (views s1 w) = key (views s w)"
  by (auto simp: getGpuText_def initGpuText_def pool_get_def Let_def
      split: option.splits list.splits if_splits)

text \<open>What the completion step does outside the batch entry and the console.\<close>

lemma updateGpuText_resumed_frame:
  "gpuText (updateGpuText_resumed uqb p t s) = gpuText s"
  "next_gref (updateGpuText_resumed uqb p t s) = next_gref s"
  "provider (updateGpuText_resumed uqb p t s) = provider s"
  "pending (updateGpuText_resumed uqb p t s) = pending s"
  "pool (updateGpuText_resumed uqb p t s) = pool s"
  "gheap (updateGpuText_resumed uqb p t s) =
     (gheap s)(p_gpuText p := (gheap s (p_gpuText p))
        \<lparr>texture := t, generatingTexture := False, textureNeedsUploading := True\<rparr>)"
  "views (updateGpuText_resumed uqb p t s) =
     (views s)(p_renderable p := onUpdate (views s (p_renderable p)))"
  by (simp_all add: updateGpuText_resumed_def updateGpuText_rejected_def Let_def
      split: sum.splits)

text \<open>Unfolding every method, for evaluating a run of the sample pipe.\<close>

lemmas ev = call_def addRenderable_def updateRenderable_def validateRenderable_def getGpuText_def
  initGpuText_def pool_get_def pool_return_def updateText_def updateGpuText_def
  updateGpuText_resumed_def onUpdate_def updateGpuText_rejected_def updateQuadBounds_def
  fulfil_def reject_def
  destroyRenderable_def destroyRenderableById_def destroy_def
  pipe0_def viewA_def viewB_def uqb0_def sentinel_def Let_def

lemma constructed_pipe0: "constructed pipe0"
  by (simp add: constructed_def pipe0_def)

subsection \<open>The mutation flag\<close>

lemma updateText_didUpdate: "didUpdate (views (snd (updateText uqb u s)) u) = False"
  by (simp add: updateText_def Let_def split: prod.splits sum.splits)

text \<open>
  C10. \<^verbatim>\<open>_updateText\<close> clears \<^verbatim>\<open>view._didUpdate\<close> on every path, whether or not the key
  differs from the record's, and \<^verbatim>\<open>addRenderable\<close> and \<^verbatim>\<open>updateRenderable\<close> run it
  exactly when the flag is set: when either of them returns, the renderable's mutation
  flag is false.
\<close>

theorem mutation_flag_cleared:
  "\<not> didUpdate (views (snd (updateText uqb u s)) u) \<and>
   \<not> didUpdate (views (snd (addRenderable uqb u s)) u) \<and>
   \<not> didUpdate (views (snd (updateRenderable uqb u s)) u)"
proof -
  obtain g s1 where e: "getGpuText u s = (g, s1)" by (cases "getGpuText u s")
  have d: "didUpdate (views s1 u) = didUpdate (views s u)" by (rule getGpuText_didUpdate[OF e])
  have "\<not> didUpdate (views (snd (addRenderable uqb u s)) u)"
    using e d updateText_didUpdate[of uqb u s1]
    by (cases "updateText uqb u s1")
      (auto simp: addRenderable_def Let_def split: outcome.splits)
  moreover have "\<not> didUpdate (views (snd (updateRenderable uqb u s)) u)"
    using e d updateText_didUpdate[of uqb u s1]
    by (cases "updateText uqb u s1")
      (auto simp: updateRenderable_def Let_def split: outcome.splits)
  ultimately show ?thesis by (simp add: updateText_didUpdate)
qed

subsection \<open>Quad bounds\<close>

lemma updateGpuText_frame:
  assumes "map_of (gpuText s) u = Some (Some g)"
  shows "sheap (updateGpuText u s) = sheap s"
    and "padding (views (updateGpuText u s) w) = padding (views s w)"
    and "anchor (views (updateGpuText u s) w) = anchor (views s w)"
    and "batchableSprite (gheap (updateGpuText u s) h) = batchableSprite (gheap s h)"
  using assms by (auto simp: updateGpuText_def getGpuText_def Let_def)

lemma updateText_bounds:
  assumes "getGpuText u s = (g, s1)" and "a = batchableSprite (gheap s1 g)"
  shows "bounds (sheap (snd (updateText uqb u s)) a) =
           (case updateQuadBounds uqb (bounds (sheap s1 a)) (anchor (views s u))
                   (bs_texture (sheap s1 a)) (padding (views s u)) of
              Inl e \<Rightarrow> bounds (sheap s1 a)
            | Inr q \<Rightarrow> Some q)"
    and "bs_texture (sheap (snd (updateText uqb u s)) a) = bs_texture (sheap s1 a)"
  using assms getGpuText_slot[OF assms(1)] getGpuText_view[OF assms(1)]
  by (simp_all add: updateText_def Let_def updateGpuText_frame split: sum.splits)

lemma add_update_sheap:
  assumes "getGpuText u s = (g, s1)" and "didUpdate (views s1 u)"
  shows "sheap (snd (addRenderable uqb u s)) = sheap (snd (updateText uqb u s1))"
    and "sheap (snd (updateRenderable uqb u s)) = sheap (snd (updateText uqb u s1))"
  using assms
  by (cases "updateText uqb u s1";
      simp add: addRenderable_def updateRenderable_def Let_def split: outcome.splits)+

text \<open>
  C7. Let \<open>s1\<close> be the state once the record of the renderable has been looked up
  (or created) and \<open>a\<close> its batch entry. When \<^verbatim>\<open>addRenderable\<close> or \<^verbatim>\<open>updateRenderable\<close>
  runs the synchronous update step (the view's mutation flag is set), or when
  \<^verbatim>\<open>_updateText\<close> runs by itself, the bounds of \<open>a\<close> afterwards are what \<^verbatim>\<open>updateQuadBounds\<close>
  makes of the renderable's anchor, the style's padding and the texture that was
  assigned to \<open>a\<close> at that moment, and that texture is still the one assigned to \<open>a\<close>:
  for an entry that holds a texture \<open>t\<close> and bounds \<open>b\<close>, the new bounds are \<open>uqb\<close> of
  \<open>b\<close>, the anchor, \<open>t\<close> and the padding. Nothing in the statement depends on whether
  the key changed.
\<close>

theorem bounds_from_assigned_texture:
  assumes "getGpuText u s = (g, s1)" and "a = batchableSprite (gheap s1 g)"
    and "s' \<in> {snd (updateText uqb u s), snd (addRenderable uqb u s), snd (updateRenderable uqb u s)}"
    and "didUpdate (views s u)"
  shows "bounds (sheap s' a) =
           (case updateQuadBounds uqb (bounds (sheap s1 a)) (anchor (views s u))
                   (bs_texture (sheap s1 a)) (padding (views s u)) of
              Inl e \<Rightarrow> bounds (sheap s1 a)
            | Inr q \<Rightarrow> Some q)
         \<and> (\<forall>b t. bounds (sheap s1 a) = Some b \<and> bs_texture (sheap s1 a) = Some t \<longrightarrow>
               bounds (sheap s' a) = Some (uqb b (anchor (views s u)) t (padding (views s u))))
         \<and> bs_texture (sheap s' a) = bs_texture (sheap s1 a)"
proof -
  let ?r = "case updateQuadBounds uqb (bounds (sheap s1 a)) (anchor (views s u))
                   (bs_texture (sheap s1 a)) (padding (views s u)) of
              Inl e \<Rightarrow> bounds (sheap s1 a)
            | Inr q \<Rightarrow> Some q"
  have idem: "getGpuText u s1 = (g, s1)" using assms(1) by (rule getGpuText_idem)
  have v: "anchor (views s1 u) = anchor (views s u)" "padding (views s1 u) = padding (views s u)"
    using getGpuText_view[OF assms(1)] by simp_all
  have d: "didUpdate (views s1 u)" using assms(4) getGpuText_didUpdate[OF assms(1)] by simp
  have direct: "bounds (sheap (snd (updateText uqb u s)) a) = ?r
         \<and> bs_texture (sheap (snd (updateText uqb u s)) a) = bs_texture (sheap s1 a)"
    using updateText_bounds[OF assms(1,2)] by simp
  have inner: "bounds (sheap (snd (updateText uqb u s1)) a) = ?r
         \<and> bs_texture (sheap (snd (updateText uqb u s1)) a) = bs_texture (sheap s1 a)"
    using updateText_bounds[OF idem assms(2)] v by simp
  note au = add_update_sheap[OF assms(1) d, of uqb]
  from assms(3) direct inner au
  have main: "bounds (sheap s' a) = ?r \<and> bs_texture (sheap s' a) = bs_texture (sheap s1 a)"
    by auto
  then show ?thesis by (auto simp: updateQuadBounds_def)
qed

text \<open>
  On the sample pipe: the first \<^verbatim>\<open>addRenderable\<close> of renderable 1 asks for the texture of
  key \<open>A\<close> and computes the bounds from the placeholder texture the entry still shows.
\<close>

theorem bounds_from_assigned_texture_witness:
  "getGpuText 1 pipe0 = (0, snd (getGpuText 1 pipe0)) \<and> didUpdate (views pipe0 1) \<and>
   batchableSprite (gheap (snd (getGpuText 1 pipe0)) 0) = 0 \<and>
   bounds (sheap (snd (getGpuText 1 pipe0)) 0) = Some [0, 1, 0, 0] \<and>
   bs_texture (sheap (snd (getGpuText 1 pipe0)) 0) = Some EMPTY \<and>
   length (pending (snd (addRenderable uqb0 1 pipe0))) = 1 \<and>
   bs_texture (sheap (snd (addRenderable uqb0 1 pipe0)) 0) = Some EMPTY \<and>
   bounds (sheap (snd (addRenderable uqb0 1 pipe0)) 0) = Some (uqb0 [0, 1, 0, 0] (0, 0) EMPTY 0)"
proof -
  have h: "getGpuText 1 pipe0 = (0, snd (getGpuText 1 pipe0))" "didUpdate (views pipe0 1)"
    "batchableSprite (gheap (snd (getGpuText 1 pipe0)) 0) = 0"
    "bs_texture (sheap (snd (getGpuText 1 pipe0)) 0) = Some EMPTY"
    "bounds (sheap (snd (getGpuText 1 pipe0)) 0) = Some [0, 1, 0, 0]"
    "anchor (views pipe0 1) = (0, 0)" "padding (views pipe0 1) = 0"
    by (simp_all add: getGpuText_def initGpuText_def pool_get_def pipe0_def viewA_def Let_def)
  have p: "length (pending (snd (addRenderable uqb0 1 pipe0))) = 1"
    by (simp add: ev)
  from bounds_from_assigned_texture
         [OF h(1) h(3)[symmetric], of "snd (addRenderable uqb0 1 pipe0)" uqb0] h p
  show ?thesis by (simp add: updateQuadBounds_def)
qed

subsection \<open>Validation\<close>

lemma validate_result:
  assumes "getGpuText u s = (g, s1)"
  shows "fst (validateRenderable u s) =
           (textureNeedsUploading (gheap s1 g) \<or> currentKey (gheap s1 g) \<noteq> key (views s u))"
    and "snd (validateRenderable u s) =
           (if textureNeedsUploading (gheap s1 g)
            then s1\<lparr>gheap := (gheap s1)(g := (gheap s1 g)\<lparr>textureNeedsUploading := False\<rparr>)\<rparr>
            else s1)"
  using assms getGpuText_view(3)[OF assms]
  by (simp_all add: validateRenderable_def Let_def)

lemma fulfil_live:
  assumes "i < length (pending s)" and "p = pending s ! i"
    and "u = p_renderable p" and "g = p_gpuText p"
    and "map_of (gpuText s) u = Some (Some g)"
  shows "getGpuText u (fulfil uqb i t s) = (g, fulfil uqb i t s)"
    and "textureNeedsUploading (gheap (fulfil uqb i t s) g)"
    and "currentKey (gheap (fulfil uqb i t s) g) = currentKey (gheap s g)"
    and "key (views (fulfil uqb i t s) u) = key (views s u)"
  using assms
  by (simp_all add: fulfil_def updateGpuText_resumed_frame onUpdate_def Let_def getGpuText_def)

text \<open>
  C6. With \<open>g\<close> the record of the renderable (looked up or created, in state \<open>s1\<close>):
  \<^verbatim>\<open>validateRenderable\<close> returns true exactly when the record's \<^verbatim>\<open>textureNeedsUploading\<close> is
  set or its \<^verbatim>\<open>currentKey\<close> differs from the renderable's key; it clears the flag when the
  flag was set and changes nothing otherwise. So when a request of a record that is
  still the renderable's resolves (\<open>s3\<close>) and the renderable's key is the record's,
  the next validation returns true and the one after it false.
\<close>

theorem validateRenderable_result:
  assumes get: "getGpuText u s = (g, s1)"
    and req: "i < length (pending s2)"
      "pending s2 ! i = \<lparr>p_renderable = u, p_gpuText = h, p_key = k\<rparr>"
    and live: "map_of (gpuText s2) u = Some (Some h)"
    and same: "key (views s2 u) = currentKey (gheap s2 h)"
    and fin: "s3 = fulfil uqb i t s2"
  shows "fst (validateRenderable u s) =
           (textureNeedsUploading (gheap s1 g) \<or> currentKey (gheap s1 g) \<noteq> key (views s u))
       \<and> snd (validateRenderable u s) =
           (if textureNeedsUploading (gheap s1 g)
            then s1\<lparr>gheap := (gheap s1)(g := (gheap s1 g)\<lparr>textureNeedsUploading := False\<rparr>)\<rparr>
            else s1)
       \<and> fst (validateRenderable u s3)
       \<and> \<not> fst (validateRenderable u (snd (validateRenderable u s3)))"
proof -
  let ?p = "\<lparr>p_renderable = u, p_gpuText = h, p_key = k\<rparr>"
  have f: "getGpuText u s3 = (h, s3)" "textureNeedsUploading (gheap s3 h)"
    "currentKey (gheap s3 h) = currentKey (gheap s2 h)" "key (views s3 u) = key (views s2 u)"
    using fulfil_live[of i s2 ?p u h uqb t] req live fin by simp_all
  have one: "fst (validateRenderable u s3)"
    using validate_result(1)[OF f(1)] f(2) by simp
  let ?s4 = "snd (validateRenderable u s3)"
  have s4: "?s4 = s3\<lparr>gheap := (gheap s3)(h := (gheap s3 h)\<lparr>textureNeedsUploading := False\<rparr>)\<rparr>"
    using validate_result(2)[OF f(1)] f(2) by simp
  have g4: "getGpuText u ?s4 = (h, ?s4)"
    using getGpuText_slot[OF f(1)] by (simp add: s4 getGpuText_def)
  have two: "\<not> fst (validateRenderable u ?s4)"
    using validate_result(1)[OF g4] f(3,4) same by (simp add: s4)
  from validate_result(1,2)[OF get] one two show ?thesis by simp
qed

lemma after_first_add:
  "(let s = snd (addRenderable uqb0 1 pipe0)
    in pending s = [\<lparr>p_renderable = 1, p_gpuText = 0, p_key = ''A''\<rparr>] \<and>
       map_of (gpuText s) 1 = Some (Some 0) \<and> key (views s 1) = ''A'' \<and>
       currentKey (gheap s 0) = ''A'' \<and> generatingTexture (gheap s 0) \<and>
       \<not> textureNeedsUploading (gheap s 0) \<and> batchableSprite (gheap s 0) = 0 \<and>
       fst (addRenderable uqb0 1 pipe0) = Returned \<and> console s = [] \<and>
       pool s = [] \<and> bounds (sheap s 0) = Some [0, 0, 0, 0] \<and>
       bs_texture (sheap s 0) = Some EMPTY \<and>
       anchor (views s 1) = (0, 0) \<and> padding (views s 1) = 0 \<and>
       provider s = [DecreaseReferenceCount ''--'', GetManagedTexture ''A'' 1 ''A''])"
  by (simp add: ev)

text \<open>
  On the sample pipe: renderable 1 is new, so its first validation returns true; after
  \<^verbatim>\<open>addRenderable\<close> and the arrival of the texture, validation returns true once and then
  false.
\<close>

theorem validateRenderable_result_witness:
  "getGpuText 1 pipe0 = (0, snd (getGpuText 1 pipe0)) \<and>
   0 < length (pending (snd (addRenderable uqb0 1 pipe0))) \<and>
   pending (snd (addRenderable uqb0 1 pipe0)) ! 0 = \<lparr>p_renderable = 1, p_gpuText = 0, p_key = ''A''\<rparr> \<and>
   map_of (gpuText (snd (addRenderable uqb0 1 pipe0))) 1 = Some (Some 0) \<and>
   key (views (snd (addRenderable uqb0 1 pipe0)) 1) = currentKey (gheap (snd (addRenderable uqb0 1 pipe0)) 0) \<and>
   fst (validateRenderable 1 pipe0) \<and>
   fst (validateRenderable 1 (fulfil uqb0 0 (Managed 7) (snd (addRenderable uqb0 1 pipe0)))) \<and>
   \<not> fst (validateRenderable 1 (snd (validateRenderable 1
         (fulfil uqb0 0 (Managed 7) (snd (addRenderable uqb0 1 pipe0))))))"
proof -
  have g: "getGpuText 1 pipe0 = (0, snd (getGpuText 1 pipe0))"
    "currentKey (gheap (snd (getGpuText 1 pipe0)) 0) = ''--''" "key (views pipe0 1) = ''A''"
    by (simp_all add: getGpuText_def initGpuText_def pool_get_def pipe0_def viewA_def
        sentinel_def Let_def)
  have a: "0 < length (pending (snd (addRenderable uqb0 1 pipe0)))"
    "pending (snd (addRenderable uqb0 1 pipe0)) ! 0 = \<lparr>p_renderable = 1, p_gpuText = 0, p_key = ''A''\<rparr>"
    "map_of (gpuText (snd (addRenderable uqb0 1 pipe0))) 1 = Some (Some 0)"
    "key (views (snd (addRenderable uqb0 1 pipe0)) 1) = currentKey (gheap (snd (addRenderable uqb0 1 pipe0)) 0)"
    using after_first_add by (simp_all add: Let_def)
  from validateRenderable_result[OF g(1) a refl, of uqb0 "Managed 7"] g a
  show ?thesis by simp
qed

text \<open>
  C9. Validating a renderable that \<^verbatim>\<open>_gpuText\<close> has no key for runs the first-touch
  initialisation: the style is updated, a record with the key \<^verbatim>\<open>'--'\<close>, the placeholder
  texture and both flags false is stored under the uid, its batch entry comes from the
  pool and gets the renderable, the placeholder texture and the bounds \<^verbatim>\<open>[0, 1, 0, 0]\<close>
  (of no area), a \<^verbatim>\<open>'destroyed'\<close> listener is registered, and no request goes out. With a
  renderable key other than \<^verbatim>\<open>'--'\<close> the call returns true.
\<close>

theorem validateRenderable_first_touch:
  assumes "map_of (gpuText s) u = None" and "key (views s u) \<noteq> sentinel"
    and "s' = snd (validateRenderable u s)" and "g = next_gref s" and "a = fst (pool_get s)"
  shows "fst (validateRenderable u s)
       \<and> map_of (gpuText s') u = Some (Some g)
       \<and> gheap s' g = \<lparr>textureNeedsUploading = False, generatingTexture = False,
                        texture = EMPTY, currentKey = ''--'', batchableSprite = a\<rparr>
       \<and> sheap s' a = \<lparr>sprite = Some u, bs_texture = Some EMPTY, bounds = Some [0, 1, 0, 0]\<rparr>
       \<and> map_option (\<lambda>b. (b ! 1 - b ! 0) * (b ! 3 - b ! 2)) (bounds (sheap s' a)) = Some 0
       \<and> listeners s' u = Suc (listeners s u)
       \<and> styleUpdates (views s' u) = Suc (styleUpdates (views s u))
       \<and> provider s' = provider s \<and> pending s' = pending s"
  using assms
  by (auto simp: validateRenderable_def getGpuText_def initGpuText_def pool_get_def Let_def
      sentinel_def update_conv' split: list.splits)

text \<open>On the sample pipe, whose renderable 1 has the key \<open>A\<close>.\<close>

theorem validateRenderable_first_touch_witness:
  "map_of (gpuText pipe0) 1 = None \<and> key (views pipe0 1) \<noteq> sentinel \<and>
   fst (validateRenderable 1 pipe0) \<and>
   map_of (gpuText (snd (validateRenderable 1 pipe0))) 1 = Some (Some 0) \<and>
   currentKey (gheap (snd (validateRenderable 1 pipe0)) 0) = ''--'' \<and>
   listeners (snd (validateRenderable 1 pipe0)) 1 = 1"
proof -
  have h: "map_of (gpuText pipe0) 1 = None" "key (views pipe0 1) \<noteq> sentinel"
    "next_gref pipe0 = 0" "fst (pool_get pipe0) = 0" "listeners pipe0 1 = 0"
    by (simp_all add: pipe0_def viewA_def sentinel_def pool_get_def)
  from validateRenderable_first_touch[OF h(1,2) refl h(3)[symmetric] h(4)[symmetric]] h
  show ?thesis by simp
qed

subsection \<open>Lists of records and requests\<close>

lemma live_mem: "map_of m u = Some (Some g) \<Longrightarrow> g \<in> set (live m)"
  by (induction m rule: live.induct) (auto split: if_splits)

lemma live_update_add:
  "\<forall>h. map_of m u \<noteq> Some (Some h) \<Longrightarrow>
     set (live (AList.update u (Some g) m)) = insert g (set (live m)) \<and>
     (distinct (live (AList.update u (Some g) m)) \<longleftrightarrow> g \<notin> set (live m) \<and> distinct (live m)) \<and>
     length (filter P (live (AList.update u (Some g) m)))
       = (if P g then 1 else 0) + length (filter P (live m))"
  by (induction m rule: live.induct) (auto split: if_splits)

lemma live_update_del:
  "map_of m u = Some (Some g) \<Longrightarrow>
     set (live (AList.update u None m)) \<subseteq> set (live m) \<and>
     (distinct (live m) \<longrightarrow> distinct (live (AList.update u None m))) \<and>
     length (filter P (live (AList.update u None m))) + (if P g then 1 else 0)
       = length (filter P (live m))"
  by (induction m rule: live.induct) (auto split: if_splits)

lemma live_empty: "\<forall>(u, r) \<in> set m. r = None \<Longrightarrow> live m = []"
  by (induction m rule: live.induct) auto

lemma count_upd_out:
  "g \<notin> set xs \<Longrightarrow> filter (\<lambda>x. P ((h(g := r)) x)) xs = filter (\<lambda>x. P (h x)) xs"
  by (rule filter_cong) auto

lemma count_upd_in:
  "distinct xs \<Longrightarrow> g \<in> set xs \<Longrightarrow>
     length (filter (\<lambda>x. P ((h(g := r)) x)) xs) + (if P (h g) then 1 else 0)
       = length (filter (\<lambda>x. P (h x)) xs) + (if P r then 1 else (0::nat))"
proof (induction xs)
  case Nil
  then show ?case by simp
next
  case (Cons a xs)
  show ?case
  proof (cases "a = g")
    case True
    then have "g \<notin> set xs" using Cons.prems by simp
    then have "filter (\<lambda>x. P ((h(g := r)) x)) xs = filter (\<lambda>x. P (h x)) xs"
      by (rule count_upd_out)
    then show ?thesis using True by simp
  next
    case False
    then have "g \<in> set xs" "distinct xs" using Cons.prems by auto
    from Cons.IH[OF this(2,1)] False show ?thesis by simp
  qed
qed

lemma count_remove_nth:
  "i < length xs \<Longrightarrow>
     length (filter P (take i xs @ drop (Suc i) xs)) + (if P (xs ! i) then 1 else 0)
       = length (filter P xs)"
proof (induction xs arbitrary: i)
  case Nil
  then show ?case by simp
next
  case (Cons x xs)
  then show ?case by (cases i) auto
qed

lemma set_remove_nth: "set (take i xs @ drop (Suc i) xs) \<subseteq> set xs"
  by (auto dest: in_set_takeD in_set_dropD)

lemma outstanding_fresh:
  "\<forall>p \<in> set ps. p_gpuText p < g \<Longrightarrow> filter (\<lambda>p. p_gpuText p = g) ps = []"
  by (induction ps) auto

subsection \<open>What every run preserves\<close>

lemma gatedD:
  "gated s \<Longrightarrow> outstanding h s \<le> (if generatingTexture (gheap s h) then 1 else 0)"
  by (simp add: gated_def)

lemma gatedI:
  "(\<And>h. outstanding h s \<le> (if generatingTexture (gheap s h) then 1 else 0)) \<Longrightarrow> gated s"
  unfolding gated_def by blast

lemma balancedD:
  "balanced s \<Longrightarrow> k \<noteq> sentinel \<Longrightarrow> requests k s = releases k s + holders k s"
  by (simp add: balanced_def)

lemma balancedI:
  "(\<And>k. k \<noteq> sentinel \<Longrightarrow> requests k s = releases k s + holders k s) \<Longrightarrow> balanced s"
  unfolding balanced_def by blast

text \<open>The invariant reads five components of the state and two fields of each record.\<close>

lemma inv_cong:
  assumes "gpuText s' = gpuText s" "next_gref s' = next_gref s" "provider s' = provider s"
    "pending s' = pending s"
    "\<And>g. currentKey (gheap s' g) = currentKey (gheap s g)"
    "\<And>g. generatingTexture (gheap s' g) = generatingTexture (gheap s g)"
  shows "inv s' = inv s"
  using assms
  by (simp add: inv_def wf_def balanced_def gated_def requests_def releases_def holders_def
      outstanding_def)

lemma initGpuText_effect:
  assumes "initGpuText u s = (g, s')"
  shows "g = next_gref s" "gpuText s' = AList.update u (Some g) (gpuText s)"
    "next_gref s' = Suc g" "provider s' = provider s" "pending s' = pending s"
    "currentKey (gheap s' h) = (if h = g then sentinel else currentKey (gheap s h))"
    "generatingTexture (gheap s' h) = (if h \<noteq> g then generatingTexture (gheap s h) else False)"
  using assms
  by (auto simp: initGpuText_def pool_get_def Let_def split: list.splits)

lemma initGpuText_inv:
  assumes i: "inv s" and nl: "\<forall>h. map_of (gpuText s) u \<noteq> Some (Some h)"
    and e: "initGpuText u s = (g, s')"
  shows "inv s'"
proof -
  note eff = initGpuText_effect[OF e]
  note upd = live_update_add[OF nl, of g]
  from i have w: "wf s" and b: "balanced s" and ga: "gated s" by (simp_all add: inv_def)
  have fresh: "g \<notin> set (live (gpuText s))"
    using w eff(1) by (auto simp: wf_def)
  have "wf s'"
    using w fresh upd eff(1) by (auto simp: wf_def eff(2,3,5) distinct_update less_Suc_eq)
  moreover have "balanced s'"
  proof (rule balancedI)
    fix k assume k: "k \<noteq> sentinel"
    have "filter (\<lambda>h. currentKey (gheap s' h) = k) (live (gpuText s))
          = filter (\<lambda>h. currentKey (gheap s h) = k) (live (gpuText s))"
      using fresh by (intro filter_cong) (auto simp: eff(6))
    then have "holders k s' = holders k s"
      using k upd by (simp add: holders_def eff(2) eff(6))
    then show "requests k s' = releases k s' + holders k s'"
      using balancedD[OF b k] by (simp add: requests_def releases_def eff(4))
  qed
  moreover have "gated s'"
  proof (rule gatedI)
    fix h
    have z: "outstanding g s = 0"
      using w eff(1) outstanding_fresh[of "pending s" g] by (simp add: wf_def outstanding_def)
    have same: "outstanding h s' = outstanding h s"
      by (simp add: outstanding_def eff(5))
    show "outstanding h s' \<le> (if generatingTexture (gheap s' h) then 1 else 0)"
      using gatedD[OF ga, of h] z same by (cases "h = g") (simp_all add: eff(7))
  qed
  ultimately show ?thesis by (simp add: inv_def)
qed

lemma getGpuText_inv:
  assumes i: "inv s" and e: "getGpuText u s = (g, s')"
  shows "inv s'" and "g \<in> set (live (gpuText s'))"
proof -
  show "g \<in> set (live (gpuText s'))" using getGpuText_slot[OF e] by (rule live_mem)
  show "inv s'"
  proof (cases "\<exists>h. map_of (gpuText s) u = Some (Some h)")
    case True
    then show ?thesis using i e by (auto simp: getGpuText_def)
  next
    case False
    then have "initGpuText u s = (g, s')" using e
      by (auto simp: getGpuText_def split: option.splits)
    with i False show ?thesis by (auto intro: initGpuText_inv)
  qed
qed

lemma regenerate_inv:
  assumes i: "inv s" and g: "g \<in> set (live (gpuText s))" and ng: "\<not> generatingTexture (gheap s g)"
    and m: "gpuText s' = gpuText s" and n: "next_gref s' = next_gref s"
    and pr: "provider s' = provider s @
               [DecreaseReferenceCount (currentKey (gheap s g)), GetManagedTexture txt res k']"
    and pe: "pending s' = pending s @ [p]" and pg: "p_gpuText p = g"
    and h: "gheap s' = (gheap s)(g := r)" and rk: "currentKey r = k'" and rg: "generatingTexture r"
  shows "inv s'"
proof -
  from i have w: "wf s" and b: "balanced s" and ga: "gated s" by (simp_all add: inv_def)
  have "wf s'" using w g pg by (auto simp: wf_def m n pe)
  moreover have "balanced s'"
  proof (rule balancedI)
    fix k assume k: "k \<noteq> sentinel"
    have d: "distinct (live (gpuText s))" using w by (simp add: wf_def)
    have "holders k s' + (if currentKey (gheap s g) = k then 1 else 0)
            = holders k s + (if currentKey r = k then 1 else 0)"
      unfolding holders_def m h
      using count_upd_in[OF d g, of "\<lambda>x. currentKey x = k" "gheap s" r] by simp
    then show "requests k s' = releases k s' + holders k s'"
      using balancedD[OF b k] rk by (simp add: requests_def releases_def pr split: if_splits)
  qed
  moreover have "gated s'"
  proof (rule gatedI)
    fix x
    have "outstanding g s = 0" using gatedD[OF ga, of g] ng by simp
    then show "outstanding x s' \<le> (if generatingTexture (gheap s' x) then 1 else 0)"
      using gatedD[OF ga, of x] pg rg by (cases "x = g") (auto simp: outstanding_def pe h)
  qed
  ultimately show ?thesis by (simp add: inv_def)
qed

lemma updateGpuText_inv:
  assumes "inv s"
  shows "inv (updateGpuText u s)"
proof -
  let ?s1 = "s\<lparr>views := (views s)(u := (views s u)\<lparr>didUpdate := False\<rparr>)\<rparr>"
  have i1: "inv ?s1" using assms inv_cong[of ?s1 s] by simp
  obtain g s2 where e: "getGpuText u ?s1 = (g, s2)" by (cases "getGpuText u ?s1")
  note i2 = getGpuText_inv[OF i1 e]
  show ?thesis
  proof (cases "generatingTexture (gheap s2 g)")
    case True
    then show ?thesis using e i2 by (simp add: updateGpuText_def Let_def)
  next
    case False
    show ?thesis
      by (rule regenerate_inv[OF i2(1) i2(2) False, where p = "\<lparr>p_renderable = u, p_gpuText = g, p_key = key (views s2 u)\<rparr>"
            and r = "(gheap s2 g)\<lparr>generatingTexture := True, currentKey := key (views s2 u)\<rparr>"
            and k' = "key (views s2 u)"])
        (use e False in \<open>simp_all add: updateGpuText_def Let_def\<close>)
  qed
qed

lemma updateText_inv:
  assumes "inv s"
  shows "inv (snd (updateText uqb u s))"
proof -
  obtain g s1 where e: "getGpuText u s = (g, s1)" by (cases "getGpuText u s")
  note i1 = getGpuText_inv[OF assms e]
  let ?s2 = "if currentKey (gheap s1 g) \<noteq> key (views s u) then updateGpuText u s1 else s1"
  have i2: "inv ?s2" using i1(1) by (simp add: updateGpuText_inv)
  have "inv (snd (updateText uqb u s)) = inv ?s2"
    by (rule inv_cong) (use e in \<open>simp_all add: updateText_def Let_def split: sum.splits\<close>)
  with i2 show ?thesis by simp
qed

lemma addRenderable_inv:
  assumes "inv s"
  shows "inv (snd (addRenderable uqb u s))"
proof -
  obtain g s1 where e: "getGpuText u s = (g, s1)" by (cases "getGpuText u s")
  note i1 = getGpuText_inv[OF assms e]
  let ?s2 = "snd (if didUpdate (views s1 u) then updateText uqb u s1 else (Returned, s1))"
  have i2: "inv ?s2" using i1(1) by (simp add: updateText_inv)
  have "inv (snd (addRenderable uqb u s)) = inv ?s2"
    by (rule inv_cong)
      (use e in \<open>simp_all add: addRenderable_def Let_def split: prod.splits outcome.splits\<close>)
  with i2 show ?thesis by simp
qed

lemma updateRenderable_inv:
  assumes "inv s"
  shows "inv (snd (updateRenderable uqb u s))"
proof -
  obtain g s1 where e: "getGpuText u s = (g, s1)" by (cases "getGpuText u s")
  note i1 = getGpuText_inv[OF assms e]
  let ?s2 = "snd (if didUpdate (views s1 u) then updateText uqb u s1 else (Returned, s1))"
  have i2: "inv ?s2" using i1(1) by (simp add: updateText_inv)
  have "inv (snd (updateRenderable uqb u s)) = inv ?s2"
    by (rule inv_cong)
      (use e in \<open>simp_all add: updateRenderable_def Let_def split: prod.splits outcome.splits\<close>)
  with i2 show ?thesis by simp
qed

lemma validateRenderable_inv:
  assumes "inv s"
  shows "inv (snd (validateRenderable u s))"
proof -
  obtain g s1 where e: "getGpuText u s = (g, s1)" by (cases "getGpuText u s")
  note i1 = getGpuText_inv[OF assms e]
  have "inv (snd (validateRenderable u s)) = inv s1"
    by (rule inv_cong) (use e in \<open>simp_all add: validateRenderable_def Let_def\<close>)
  with i1 show ?thesis by simp
qed

lemma destroyRenderableById_inv:
  assumes i: "inv s"
  shows "inv (snd (destroyRenderableById u s))"
proof (cases "\<exists>g. map_of (gpuText s) u = Some (Some g)")
  case False
  then show ?thesis using i by (auto simp: destroyRenderableById_def split: option.splits)
next
  case True
  then obtain g where sl: "map_of (gpuText s) u = Some (Some g)" by blast
  let ?s' = "snd (destroyRenderableById u s)"
  have eff: "gpuText ?s' = AList.update u None (gpuText s)" "next_gref ?s' = next_gref s"
    "provider ?s' = provider s @ [DecreaseReferenceCount (currentKey (gheap s g))]"
    "pending ?s' = pending s" "gheap ?s' = gheap s"
    using sl by (simp_all add: destroyRenderableById_def pool_return_def Let_def)
  from i have w: "wf s" and b: "balanced s" and ga: "gated s" by (simp_all add: inv_def)
  note del = live_update_del[OF sl]
  have "wf ?s'"
    using w del[of "\<lambda>_. True"] by (auto simp: wf_def eff distinct_update)
  moreover have "balanced ?s'"
  proof (rule balancedI)
    fix k assume k: "k \<noteq> sentinel"
    have "holders k ?s' + (if currentKey (gheap s g) = k then 1 else 0) = holders k s"
      unfolding holders_def eff using del[of "\<lambda>h. currentKey (gheap s h) = k"] by simp
    then show "requests k ?s' = releases k ?s' + holders k ?s'"
      using balancedD[OF b k] by (simp add: requests_def releases_def eff split: if_splits)
  qed
  moreover have "gated ?s'"
    using ga by (simp add: gated_def outstanding_def eff)
  ultimately show ?thesis by (simp add: inv_def)
qed

lemma destroy_loop_inv:
  "inv s \<Longrightarrow> inv (snd (destroy_loop ks s))"
proof (induction ks arbitrary: s)
  case Nil then show ?case by simp
next
  case (Cons i ks)
  obtain r s1 where d: "destroyRenderableById i s = (r, s1)" by (cases "destroyRenderableById i s")
  have i1: "inv s1" using destroyRenderableById_inv[OF Cons.prems, of i] d by simp
  show ?case using d i1 Cons.IH[OF i1] by (cases r) simp_all
qed

lemma destroyRenderableById_slots:
  "destroyRenderableById i s = (Returned, s1) \<Longrightarrow> map_of (gpuText s1) = (map_of (gpuText s))(i \<mapsto> None)"
  by (auto simp: destroyRenderableById_def pool_return_def Let_def update_conv'
      split: option.splits)

lemma destroy_loop_slots:
  "destroy_loop ks s = (Returned, s') \<Longrightarrow>
     map_of (gpuText s') u = (if u \<in> set ks then Some None else map_of (gpuText s) u)"
proof (induction ks arbitrary: s)
  case Nil then show ?case by simp
next
  case (Cons i ks)
  obtain r s1 where d: "destroyRenderableById i s = (r, s1)" by (cases "destroyRenderableById i s")
  with Cons.prems have r: "r = Returned" and l: "destroy_loop ks s1 = (Returned, s')"
    by (cases r; simp)+
  from Cons.IH[OF l] destroyRenderableById_slots[OF d[unfolded r]] show ?case by simp
qed

lemma destroy_inv:
  assumes i: "inv s"
  shows "inv (snd (destroy s))"
proof -
  let ?ks = "sort (map fst (gpuText s))"
  obtain r s1 where l: "destroy_loop ?ks s = (r, s1)" by (cases "destroy_loop ?ks s")
  have i1: "inv s1" using destroy_loop_inv[OF i, of ?ks] l by simp
  show ?thesis
  proof (cases r)
    case (Thrown e)
    then show ?thesis using l i1 by (simp add: destroy_def)
  next
    case Returned
    have sl: "\<And>u. map_of (gpuText s1) u = (if u \<in> fst ` set (gpuText s) then Some None else None)"
      using destroy_loop_slots[OF l[unfolded Returned]] by (auto simp: map_of_eq_None_iff)
    have d: "distinct (map fst (gpuText s1))" using i1 by (simp add: inv_def wf_def)
    have "\<forall>(u, x) \<in> set (gpuText s1). x = None"
    proof (clarify)
      fix u x assume "(u, x) \<in> set (gpuText s1)"
      then have "map_of (gpuText s1) u = Some x" using d by simp
      then show "x = None" using sl[of u] by (simp split: if_splits)
    qed
    then have e: "live (gpuText s1) = []" by (rule live_empty)
    let ?s' = "s1\<lparr>gpuText := [], released := True\<rparr>"
    from i1 have w: "wf s1" and b: "balanced s1" and ga: "gated s1" by (simp_all add: inv_def)
    have "wf ?s'" using w by (simp add: wf_def)
    moreover have "balanced ?s'"
      using b e by (simp add: balanced_def requests_def releases_def holders_def)
    moreover have "gated ?s'" using ga by (simp add: gated_def outstanding_def)
    ultimately show ?thesis using l Returned by (simp add: destroy_def inv_def)
  qed
qed

lemma settle_inv:
  assumes i: "inv s" and n: "n < length (pending s)"
    and m: "gpuText s' = gpuText s" and nx: "next_gref s' = next_gref s"
    and pr: "provider s' = provider s @ [e]" and e: "\<And>k. \<not> is_request k e \<and> \<not> is_release k e"
    and pe: "pending s' = take n (pending s) @ drop (Suc n) (pending s)"
    and ck: "\<And>h. currentKey (gheap s' h) = currentKey (gheap s h)"
    and gt: "\<And>h. h \<noteq> p_gpuText (pending s ! n) \<Longrightarrow>
                generatingTexture (gheap s' h) = generatingTexture (gheap s h)"
  shows "inv s'"
proof -
  from i have w: "wf s" and b: "balanced s" and ga: "gated s" by (simp_all add: inv_def)
  have "wf s'" using w set_remove_nth[of n "pending s"] by (auto simp: wf_def m nx pe)
  moreover have "balanced s'"
    using b e by (simp add: balanced_def requests_def releases_def holders_def m pr ck)
  moreover have "gated s'"
  proof (rule gatedI)
    fix x
    have c: "outstanding x s' + (if p_gpuText (pending s ! n) = x then 1 else 0) = outstanding x s"
      unfolding outstanding_def pe using count_remove_nth[OF n, of "\<lambda>p. p_gpuText p = x"] by simp
    show "outstanding x s' \<le> (if generatingTexture (gheap s' x) then 1 else 0)"
      using gatedD[OF ga, of x] c gt[of x] by (cases "p_gpuText (pending s ! n) = x") (auto split: if_splits)
  qed
  ultimately show ?thesis by (simp add: inv_def)
qed

lemma fulfil_inv: "inv s \<Longrightarrow> inv (fulfil uqb n t s)"
proof (cases "n < length (pending s)")
  case False then show "inv s \<Longrightarrow> ?thesis" by (simp add: fulfil_def)
next
  case True
  assume i: "inv s"
  show ?thesis
    by (rule settle_inv[OF i True, where e = "Resolved (p_key (pending s ! n)) t"])
      (use True in \<open>simp_all add: fulfil_def updateGpuText_resumed_frame Let_def\<close>)
qed

lemma reject_inv: "inv s \<Longrightarrow> inv (reject n e s)"
proof (cases "n < length (pending s)")
  case False then show "inv s \<Longrightarrow> ?thesis" by (simp add: reject_def)
next
  case True
  assume i: "inv s"
  show ?thesis
    by (rule settle_inv[OF i True, where e = "Rejected (p_key (pending s ! n)) e"])
      (use True in \<open>simp_all add: reject_def updateGpuText_rejected_def Let_def\<close>)
qed

lemma call_inv: "inv s \<Longrightarrow> inv (snd (call uqb c s))"
proof (cases c)
  case (SetView u v)
  assume "inv s"
  then show ?thesis using inv_cong[of "s\<lparr>views := (views s)(u := v)\<rparr>" s]
    by (simp add: call_def SetView)
qed (simp_all add: call_def validateRenderable_inv addRenderable_inv updateRenderable_inv
      destroyRenderable_def destroyRenderableById_inv destroy_inv fulfil_inv reject_inv)

lemma run_inv: "inv s \<Longrightarrow> inv (run uqb cs s)"
  by (induction cs arbitrary: s) (simp_all add: call_inv)

lemma constructed_inv: "constructed s \<Longrightarrow> inv s"
  by (simp add: constructed_def inv_def wf_def balanced_def gated_def requests_def releases_def
      holders_def outstanding_def)

subsection \<open>Runs of the sample pipe\<close>

text \<open>
  Two renderables with the same key, one of them destroyed: the key was asked for
  twice and released once, and one record still holds it.
\<close>

lemma scenario_shared_key:
  "(let s = run uqb0 [Add 1, Add 2, DestroyRenderable 1] pipe0
    in requests ''A'' s = 2 \<and> releases ''A'' s = 1 \<and> holders ''A'' s = 1)"
  by (simp add: requests_def releases_def holders_def ev)

text \<open>
  The request of renderable 1 is rejected (\<open>s\<close>). From there, either the renderable is
  destroyed (\<open>d\<close>), or its text changes (\<open>v\<close>) and \<^verbatim>\<open>updateRenderable\<close> runs (\<open>w\<close>).
\<close>

lemma scenario_rejected:
  "(let s = run uqb0 [Add 1, Reject 0 (Rejection 0)] pipe0;
        d = run uqb0 [DestroyRenderable 1] s;
        v = run uqb0 [SetView 1 viewB] s;
        w = run uqb0 [Update 1] v
    in console s = [Rejection 0] \<and> pending s = [] \<and>
       provider s = [DecreaseReferenceCount ''--'', GetManagedTexture ''A'' 1 ''A'',
                     Rejected ''A'' (Rejection 0)] \<and>
       map_of (gpuText s) 1 = Some (Some 0) \<and>
       generatingTexture (gheap s 0) \<and> currentKey (gheap s 0) = ''A'' \<and>
       texture (gheap s 0) = EMPTY \<and> bs_texture (sheap s 0) = Some EMPTY \<and>
       holders ''A'' s = 1 \<and> successes ''A'' s = 0 \<and>
       pending d = [] \<and> live (gpuText d) = [] \<and> releases ''A'' d = 1 \<and> successes ''A'' d = 0 \<and>
       key (views v 1) = ''B'' \<and> didUpdate (views v 1) \<and> fst (validateRenderable 1 v) \<and>
       provider w = provider s \<and> pending w = [] \<and> currentKey (gheap w 0) = ''A'' \<and>
       fst (validateRenderable 1 w))"
  by (simp add: requests_def releases_def successes_def holders_def ev)

text \<open>A second change of the text while the first request is still out.\<close>

lemma scenario_second_change:
  "(let s = run uqb0 [Add 1, SetView 1 viewB] pipe0
    in outstanding 0 s = 1 \<and> map_of (gpuText s) 1 = Some (Some 0) \<and>
       generatingTexture (gheap s 0) \<and> currentKey (gheap s 0) = ''A'' \<and>
       key (views s 1) = ''B'' \<and> didUpdate (views s 1))"
  by (simp add: outstanding_def ev)

text \<open>
  Renderable 1 is destroyed while its request is out (\<open>s\<close>); then the request
  resolves (\<open>f\<close>).
\<close>

lemma scenario_destroyed_in_flight:
  "(let s = run uqb0 [Add 1, DestroyRenderable 1] pipe0;
        f = run uqb0 [Fulfil 0 (Managed 7)] s
    in fst (call uqb0 (DestroyRenderable 1) (run uqb0 [Add 1] pipe0)) = Returned \<and>
       map_of (gpuText s) 1 = Some None \<and> pool s = [0] \<and>
       pending s = [\<lparr>p_renderable = 1, p_gpuText = 0, p_key = ''A''\<rparr>] \<and>
       batchableSprite (gheap s 0) = 0 \<and>
       texture (gheap s 0) = EMPTY \<and> \<not> textureNeedsUploading (gheap s 0) \<and>
       sheap s 0 = \<lparr>sprite = None, bs_texture = None, bounds = None\<rparr> \<and>
       console s = [] \<and>
       provider s = [DecreaseReferenceCount ''--'', GetManagedTexture ''A'' 1 ''A'',
                     DecreaseReferenceCount ''A''] \<and>
       fst (call uqb0 (DestroyRenderable 1) s) = Thrown TypeError \<and>
       snd (call uqb0 (DestroyRenderable 1) s) = s \<and>
       fst (call uqb0 Destroy s) = Thrown TypeError \<and>
       \<not> released (snd (call uqb0 Destroy s)) \<and>
       map_of (gpuText f) 1 = Some None \<and> pool f = [0] \<and>
       texture (gheap f 0) = Managed 7 \<and> textureNeedsUploading (gheap f 0) \<and>
       bs_texture (sheap f 0) = Some (Managed 7) \<and> bounds (sheap f 0) = None \<and>
       console f = [TypeError])"
  by (simp add: ev)

text \<open>
  As before, but renderable 2 (key \<open>B\<close>) is added after the destruction: it is handed
  the batch entry that renderable 1 gave back, and the late texture for key \<open>A\<close> lands
  in that entry, bounds included.
\<close>

lemma scenario_recycled_entry:
  "(let s = run uqb0 [SetView 2 viewB, Add 1, DestroyRenderable 1, Add 2] pipe0;
        f = run uqb0 [Fulfil 0 (Managed 7)] s
    in map_of (gpuText s) 1 = Some None \<and> map_of (gpuText s) 2 = Some (Some 1) \<and>
       batchableSprite (gheap s 1) = 0 \<and> sprite (sheap s 0) = Some 2 \<and>
       currentKey (gheap s 1) = ''B'' \<and>
       pending s = [\<lparr>p_renderable = 1, p_gpuText = 0, p_key = ''A''\<rparr>,
                    \<lparr>p_renderable = 2, p_gpuText = 1, p_key = ''B''\<rparr>] \<and>
       bs_texture (sheap s 0) = Some EMPTY \<and> bounds (sheap s 0) = Some [0, 0, 0, 0] \<and>
       bs_texture (sheap f 0) = Some (Managed 7) \<and> bounds (sheap f 0) = Some [0, 7, 0, 7] \<and>
       sprite (sheap f 0) = Some 2 \<and> console f = [] \<and>
       texture (gheap f 1) = EMPTY \<and> generatingTexture (gheap f 1))"
  by (simp add: ev)

text \<open>
  Whole-pipe teardown with two records: after one of them was destroyed by itself
  (\<open>s\<close>), and with both still there (\<open>t\<close>).
\<close>

lemma scenario_teardown:
  "(let s = run uqb0 [Add 1, Add 2, DestroyRenderable 1] pipe0;
        t = run uqb0 [Add 1, Add 2] pipe0
    in map_of (gpuText s) 1 = Some None \<and> map_of (gpuText s) 2 = Some (Some 1) \<and>
       fst (call uqb0 Destroy s) = Thrown TypeError \<and> snd (call uqb0 Destroy s) = s \<and>
       \<not> released s \<and> releases ''A'' s = 1 \<and> holders ''A'' s = 1 \<and>
       fst (call uqb0 Destroy t) = Returned \<and> released (snd (call uqb0 Destroy t)) \<and>
       pool (snd (call uqb0 Destroy t)) = [1, 0] \<and>
       releases ''A'' (snd (call uqb0 Destroy t)) = 2)"
  by (simp add: releases_def holders_def ev)

subsection \<open>Reference counts\<close>

text \<open>
  C1, as the spec has it, counts a reference for each \<^verbatim>\<open>getManagedTexture\<close> call that
  succeeded. On the sample pipe the request for key \<open>A\<close> is rejected: the record then
  holds \<open>A\<close> although no call for \<open>A\<close> has succeeded, and destroying the renderable
  releases \<open>A\<close> once, with nothing outstanding and no record left.
\<close>

theorem release_without_success:
  "holders ''A'' (run uqb0 [Add 1, Reject 0 (Rejection 0)] pipe0) = 1 \<and>
   successes ''A'' (run uqb0 [Add 1, Reject 0 (Rejection 0)] pipe0) = 0 \<and>
   pending (run uqb0 [Add 1, Reject 0 (Rejection 0), DestroyRenderable 1] pipe0) = [] \<and>
   live (gpuText (run uqb0 [Add 1, Reject 0 (Rejection 0), DestroyRenderable 1] pipe0)) = [] \<and>
   successes ''A'' (run uqb0 [Add 1, Reject 0 (Rejection 0), DestroyRenderable 1] pipe0)
     < releases ''A'' (run uqb0 [Add 1, Reject 0 (Rejection 0), DestroyRenderable 1] pipe0)"
  using scenario_rejected by (simp add: Let_def)

text \<open>
  C1, amended. The pipe pairs its releases with its requests, not with their success:
  in every state that a run of a newly constructed pipe reaches, and for every key
  other than the sentinel \<^verbatim>\<open>'--'\<close>, the number of \<^verbatim>\<open>getManagedTexture\<close> calls made for the
  key equals the number of \<^verbatim>\<open>decreaseReferenceCount\<close> calls made for it plus the number of
  records in \<^verbatim>\<open>_gpuText\<close> that hold it as \<^verbatim>\<open>currentKey\<close>. So each held key stands for one
  request not yet released, no release comes without an earlier request of its own,
  and once no record holds the key the two counts are equal.
\<close>

theorem requests_cover_releases_and_holders:
  assumes "constructed s0" and "k \<noteq> sentinel"
  shows "requests k (run uqb cs s0) = releases k (run uqb cs s0) + holders k (run uqb cs s0)"
  using run_inv[OF constructed_inv[OF assms(1)], of uqb cs] assms(2)
  by (simp add: inv_def balanced_def)

text \<open>On the sample pipe, with two renderables of key \<open>A\<close>, one of them destroyed.\<close>

theorem requests_cover_releases_and_holders_witness:
  "constructed pipe0 \<and> ''A'' \<noteq> sentinel \<and>
   requests ''A'' (run uqb0 [Add 1, Add 2, DestroyRenderable 1] pipe0) = 2 \<and>
   releases ''A'' (run uqb0 [Add 1, Add 2, DestroyRenderable 1] pipe0) = 1 \<and>
   holders ''A'' (run uqb0 [Add 1, Add 2, DestroyRenderable 1] pipe0) = 1"
proof -
  have k: "''A'' \<noteq> sentinel" by (simp add: sentinel_def)
  from requests_cover_releases_and_holders
         [OF constructed_pipe0 k, of uqb0 "[Add 1, Add 2, DestroyRenderable 1]"]
    scenario_shared_key constructed_pipe0 k
  show ?thesis by (simp add: Let_def)
qed

subsection \<open>One request at a time\<close>

lemma updateGpuText_gate:
  assumes "map_of (gpuText s) u = Some (Some g)" and "generatingTexture (gheap s g)"
  shows "pending (updateGpuText u s) = pending s" and "provider (updateGpuText u s) = provider s"
  using assms by (simp_all add: updateGpuText_def getGpuText_def Let_def)

lemma updateText_gate:
  assumes "map_of (gpuText s) u = Some (Some g)" and "generatingTexture (gheap s g)"
  shows "pending (snd (updateText uqb u s)) = pending s" and "provider (snd (updateText uqb u s)) = provider s"
  using assms updateGpuText_gate[OF assms]
  by (simp_all add: updateText_def getGpuText_def Let_def split: sum.splits)

text \<open>
  C2. In every state \<open>s\<close> that a run of a newly constructed pipe reaches, a record
  object \<open>g\<close> has at most one suspended request, and it has one only while its
  \<^verbatim>\<open>generatingTexture\<close> is set. While the flag is set on the record of a renderable, the
  update step (by itself, or through \<^verbatim>\<open>addRenderable\<close> or \<^verbatim>\<open>updateRenderable\<close>) issues no
  \<^verbatim>\<open>getManagedTexture\<close> call and suspends no new request, whatever the renderable's key
  is by then.
\<close>

theorem single_flight:
  assumes "constructed s0" and "s = run uqb cs s0"
  shows "outstanding g s \<le> 1 \<and>
         (1 \<le> outstanding g s \<longrightarrow> generatingTexture (gheap s g)) \<and>
         (\<forall>u. map_of (gpuText s) u = Some (Some g) \<and> generatingTexture (gheap s g) \<longrightarrow>
            pending (snd (updateText uqb u s)) = pending s \<and>
            provider (snd (updateText uqb u s)) = provider s \<and>
            pending (snd (addRenderable uqb u s)) = pending s \<and>
            provider (snd (addRenderable uqb u s)) = provider s \<and>
            pending (snd (updateRenderable uqb u s)) = pending s \<and>
            provider (snd (updateRenderable uqb u s)) = provider s)"
proof -
  have "inv s" using run_inv[OF constructed_inv[OF assms(1)], of uqb cs] assms(2) by simp
  then have ga: "gated s" by (simp add: inv_def)
  have a: "outstanding g s \<le> 1" "1 \<le> outstanding g s \<longrightarrow> generatingTexture (gheap s g)"
    using gatedD[OF ga, of g] by (auto split: if_splits)
  have b: "pending (snd (addRenderable uqb u s)) = pending s \<and>
           provider (snd (addRenderable uqb u s)) = provider s \<and>
           pending (snd (updateRenderable uqb u s)) = pending s \<and>
           provider (snd (updateRenderable uqb u s)) = provider s"
    if "map_of (gpuText s) u = Some (Some g)" "generatingTexture (gheap s g)" for u
    using that updateText_gate[OF that, of uqb]
    by (cases "updateText uqb u s")
      (auto simp: addRenderable_def updateRenderable_def getGpuText_def Let_def
        split: outcome.splits)
  show ?thesis using a b updateText_gate by blast
qed

text \<open>
  On the sample pipe: the text of renderable 1 changes to \<open>B\<close> while the request for
  \<open>A\<close> is out, and \<^verbatim>\<open>updateRenderable\<close> leaves the requests as they are.
\<close>

theorem single_flight_witness:
  "constructed pipe0 \<and>
   outstanding 0 (run uqb0 [Add 1, SetView 1 viewB] pipe0) = 1 \<and>
   map_of (gpuText (run uqb0 [Add 1, SetView 1 viewB] pipe0)) 1 = Some (Some 0) \<and>
   generatingTexture (gheap (run uqb0 [Add 1, SetView 1 viewB] pipe0) 0) \<and>
   key (views (run uqb0 [Add 1, SetView 1 viewB] pipe0) 1)
     \<noteq> currentKey (gheap (run uqb0 [Add 1, SetView 1 viewB] pipe0) 0) \<and>
   didUpdate (views (run uqb0 [Add 1, SetView 1 viewB] pipe0) 1) \<and>
   pending (snd (updateRenderable uqb0 1 (run uqb0 [Add 1, SetView 1 viewB] pipe0)))
     = pending (run uqb0 [Add 1, SetView 1 viewB] pipe0) \<and>
   provider (snd (updateRenderable uqb0 1 (run uqb0 [Add 1, SetView 1 viewB] pipe0)))
     = provider (run uqb0 [Add 1, SetView 1 viewB] pipe0)"
proof -
  from single_flight[OF constructed_pipe0 refl,
         where uqb = uqb0 and cs = "[Add 1, SetView 1 viewB]" and g = 0]
    scenario_second_change constructed_pipe0
  show ?thesis by (simp add: Let_def)
qed

subsection \<open>A rejected request\<close>

text \<open>
  C3, at the input where the code leaves it. The request of renderable 1 for key \<open>A\<close>
  is rejected: the error goes to the console, the request is gone, the record keeps its
  texture, and \<^verbatim>\<open>generatingTexture\<close>, set before the \<^verbatim>\<open>await\<close> and cleared only after it,
  stays set. The text then changes to key \<open>B\<close> and \<^verbatim>\<open>updateRenderable\<close> runs: the provider
  has seen no further call, no request is suspended, and the record still has key \<open>A\<close>.
\<close>

theorem no_request_after_rejection:
  "console (run uqb0 [Add 1, Reject 0 (Rejection 0)] pipe0) = [Rejection 0] \<and>
   pending (run uqb0 [Add 1, Reject 0 (Rejection 0)] pipe0) = [] \<and>
   texture (gheap (run uqb0 [Add 1, Reject 0 (Rejection 0)] pipe0) 0) = EMPTY \<and>
   generatingTexture (gheap (run uqb0 [Add 1, Reject 0 (Rejection 0)] pipe0) 0) \<and>
   key (views (run uqb0 [Add 1, Reject 0 (Rejection 0), SetView 1 viewB] pipe0) 1) = ''B'' \<and>
   didUpdate (views (run uqb0 [Add 1, Reject 0 (Rejection 0), SetView 1 viewB] pipe0) 1) \<and>
   provider (run uqb0 [Add 1, Reject 0 (Rejection 0), SetView 1 viewB, Update 1] pipe0)
     = [DecreaseReferenceCount ''--'', GetManagedTexture ''A'' 1 ''A'',
        Rejected ''A'' (Rejection 0)] \<and>
   pending (run uqb0 [Add 1, Reject 0 (Rejection 0), SetView 1 viewB, Update 1] pipe0) = [] \<and>
   currentKey (gheap (run uqb0 [Add 1, Reject 0 (Rejection 0), SetView 1 viewB, Update 1] pipe0) 0)
     = ''A''"
  using scenario_rejected by (simp add: Let_def)

subsection \<open>Destroying a renderable\<close>

text \<open>
  C5, as the spec has it, lets a second destruction of the same renderable pass
  without a throw. On the sample pipe the first \<^verbatim>\<open>destroyRenderable\<close> of renderable 1
  returns and the second throws a TypeError: the key holds \<^verbatim>\<open>null\<close> by then, and
  \<^verbatim>\<open>_destroyRenderableById\<close> reads \<^verbatim>\<open>currentKey\<close> from it.
\<close>

theorem second_destroyRenderable_throws:
  "fst (call uqb0 (DestroyRenderable 1) (run uqb0 [Add 1] pipe0)) = Returned \<and>
   fst (call uqb0 (DestroyRenderable 1) (run uqb0 [Add 1, DestroyRenderable 1] pipe0))
     = Thrown TypeError"
  using scenario_destroyed_in_flight by (simp add: Let_def)

text \<open>
  C5, amended. Destroying a renderable that has a record returns, calls
  \<^verbatim>\<open>decreaseReferenceCount\<close> once, for the record's current key, gives the record's batch
  entry back to the pool once, and leaves \<^verbatim>\<open>null\<close> under the uid. The pipe has no guard of
  its own against a second destruction: a second \<^verbatim>\<open>destroyRenderable\<close> of the same
  renderable changes nothing, so it neither releases the key nor returns the entry again.
\<close>

theorem destroyRenderable_once:
  assumes "map_of (gpuText s) u = Some (Some g)"
    and "s1 = snd (destroyRenderable u s)" and "s2 = snd (destroyRenderable u s1)"
  shows "fst (destroyRenderable u s) = Returned \<and>
         provider s1 = provider s @ [DecreaseReferenceCount (currentKey (gheap s g))] \<and>
         pool s1 = batchableSprite (gheap s g) # pool s \<and>
         map_of (gpuText s1) u = Some None \<and>
         s2 = s1"
  using assms
  by (simp add: destroyRenderable_def destroyRenderableById_def pool_return_def Let_def
      update_conv')

text \<open>On the sample pipe, after the first \<^verbatim>\<open>addRenderable\<close> of renderable 1.\<close>

theorem destroyRenderable_once_witness:
  "map_of (gpuText (snd (addRenderable uqb0 1 pipe0))) 1 = Some (Some 0) \<and>
   fst (destroyRenderable 1 (snd (addRenderable uqb0 1 pipe0))) = Returned \<and>
   provider (snd (destroyRenderable 1 (snd (addRenderable uqb0 1 pipe0))))
     = [DecreaseReferenceCount ''--'', GetManagedTexture ''A'' 1 ''A'',
        DecreaseReferenceCount ''A''] \<and>
   pool (snd (destroyRenderable 1 (snd (addRenderable uqb0 1 pipe0)))) = [0] \<and>
   snd (destroyRenderable 1 (snd (destroyRenderable 1 (snd (addRenderable uqb0 1 pipe0)))))
     = snd (destroyRenderable 1 (snd (addRenderable uqb0 1 pipe0)))"
proof -
  have h: "map_of (gpuText (snd (addRenderable uqb0 1 pipe0))) 1 = Some (Some 0)"
    using after_first_add by (simp add: Let_def)
  from destroyRenderable_once[OF h refl refl] after_first_add
  show ?thesis by (simp add: Let_def)
qed

subsection \<open>A request that outlives its renderable\<close>




subsection \<open>Tearing the pipe down\<close>

lemma destroyRenderableById_throws:
  "fst (destroyRenderableById i s) \<noteq> Returned \<Longrightarrow>
     destroyRenderableById i s = (Thrown TypeError, s)"
  by (auto simp: destroyRenderableById_def Let_def split: option.splits)

lemma destroy_loop_null_slot:
  "u \<in> set ks \<Longrightarrow> map_of (gpuText s) u = Some None \<Longrightarrow>
     fst (destroy_loop ks s) = Thrown TypeError"
proof (induction ks arbitrary: s)
  case Nil
  then show ?case by simp
next
  case (Cons i ks)
  show ?case
  proof (cases "fst (destroyRenderableById i s) = Returned")
    case False
    then show ?thesis using destroyRenderableById_throws[OF False] by simp
  next
    case True
    then obtain s1 where d: "destroyRenderableById i s = (Returned, s1)"
      by (cases "destroyRenderableById i s") auto
    have "i \<noteq> u" using d Cons.prems(2) by (auto simp: destroyRenderableById_def)
    then have "u \<in> set ks" "map_of (gpuText s1) u = Some None"
      using Cons.prems destroyRenderableById_slots[OF d] by auto
    from Cons.IH[OF this] d show ?thesis by simp
  qed
qed

text \<open>
  Any key of \<^verbatim>\<open>_gpuText\<close> that holds \<^verbatim>\<open>null\<close>, which is what every destroyed renderable
  leaves behind, makes \<^verbatim>\<open>destroy()\<close> throw before it releases the pipe's fields.
\<close>

lemma destroy_null_slot:
  assumes "map_of (gpuText s) u = Some None"
  shows "fst (destroy s) = Thrown TypeError"
    and "\<not> released s \<Longrightarrow> \<not> released (snd (destroy s))"
proof -
  have "(u, None) \<in> set (gpuText s)" using assms by (rule map_of_SomeD)
  then have "u \<in> set (sort (map fst (gpuText s)))" by force
  from destroy_loop_null_slot[OF this assms]
  show t: "fst (destroy s) = Thrown TypeError"
    by (cases "destroy_loop (sort (map fst (gpuText s))) s") (simp add: destroy_def)
  have "released (snd (destroy_loop ks s')) = released s'" for ks s'
  proof (induction ks arbitrary: s')
    case Nil
    then show ?case by simp
  next
    case (Cons i ks)
    have "released (snd (destroyRenderableById i s')) = released s'"
      by (simp add: destroyRenderableById_def pool_return_def Let_def split: option.splits)
    with Cons show ?case
      by (cases "destroyRenderableById i s'") (auto split: outcome.splits)
  qed
  from this[of "sort (map fst (gpuText s))" s] t
  show "\<not> released s \<Longrightarrow> \<not> released (snd (destroy s))"
    by (cases "destroy_loop (sort (map fst (gpuText s))) s")
      (auto simp: destroy_def split: outcome.splits)
qed

lemma destroy_no_slot:
  "gpuText s = [] \<Longrightarrow> destroy s = (Returned, s\<lparr>gpuText := [], released := True\<rparr>)"
  by (simp add: destroy_def)

text \<open>
  C8, at the input where the code leaves it. Renderable 1 was added and destroyed, so
  the pipe has no record left and key 1 of \<^verbatim>\<open>_gpuText\<close> holds \<^verbatim>\<open>null\<close>: \<^verbatim>\<open>destroy()\<close> throws
  a TypeError and the pipe's fields are not released. With renderable 2 still there,
  \<^verbatim>\<open>destroy()\<close> throws at key 1 before it reaches key 2: the record of renderable 2
  stays, and its key is never released.
\<close>

theorem destroy_throws_on_null_slot:
  "map_of (gpuText (run uqb0 [Add 1, DestroyRenderable 1] pipe0)) 1 = Some None \<and>
   fst (call uqb0 Destroy (run uqb0 [Add 1, DestroyRenderable 1] pipe0)) = Thrown TypeError \<and>
   \<not> released (snd (call uqb0 Destroy (run uqb0 [Add 1, DestroyRenderable 1] pipe0))) \<and>
   fst (call uqb0 Destroy (run uqb0 [Add 1, Add 2, DestroyRenderable 1] pipe0))
     = Thrown TypeError \<and>
   map_of (gpuText (snd (call uqb0 Destroy (run uqb0 [Add 1, Add 2, DestroyRenderable 1] pipe0)))) 2
     = Some (Some 1) \<and>
   releases ''A'' (snd (call uqb0 Destroy (run uqb0 [Add 1, Add 2, DestroyRenderable 1] pipe0))) = 1"
  using scenario_destroyed_in_flight scenario_teardown by (simp add: Let_def)

end
